theory Spec2Isabelle
  imports Complex_Main "HOL-Library.Word"
begin

section \<open>Glyph extraction (\<open>getUniqueWords\<close>)\<close>

text \<open>
  A JavaScript string is a sequence of UTF-16 code units; \<open>split('')\<close> cuts it into
  strings of one code unit each.  The text is therefore a list of 16-bit words and a
  glyph is a string of length one.
\<close>

type_synonym codeunit = "16 word"
type_synonym jsstring = "codeunit list"

text \<open>
  The character class of the regular expression \<open>/[.,;\<dots>]/g\<close>, member by member in
  the order of the source: full stop, comma, semicolon, full-width comma (U+FF0C), comma
  again, ideographic full stop (U+3002), space, newline, tab.
\<close>

definition strip_class :: "codeunit list" where
  "strip_class = [0x2E, 0x2C, 0x3B, 0xFF0C, 0x2C, 0x3002, 0x20, 0x0A, 0x09]"

text \<open>\<open>text.replace(/[...]/g, '')\<close>: every code unit of the class is deleted.\<close>

definition replace_class :: "jsstring \<Rightarrow> jsstring" where
  "replace_class text = filter (\<lambda>c. c \<notin> set strip_class) text"

text \<open>\<open>cleanText.split('')\<close>\<close>

definition split_chars :: "jsstring \<Rightarrow> jsstring list" where
  "split_chars s = map (\<lambda>c. [c]) s"

text \<open>
  \<open>new Set(xs)\<close> adds the elements of \<open>xs\<close> one after the other; an element that is
  already present is ignored, a new one goes to the end of the insertion order.  The spread
  \<open>[...set]\<close> lists the set in insertion order, so a set is its insertion-ordered list.
\<close>

definition set_add :: "'a list \<Rightarrow> 'a \<Rightarrow> 'a list" where
  "set_add s x = (if x \<in> set s then s else s @ [x])"

definition new_Set :: "'a list \<Rightarrow> 'a list" where
  "new_Set xs = foldl set_add [] xs"

definition getUniqueWords :: "jsstring \<Rightarrow> jsstring list" where
  "getUniqueWords text = new_Set (split_chars (replace_class text))"

text \<open>\<open>words.join('')\<close>\<close>

definition join :: "jsstring list \<Rightarrow> jsstring" where
  "join ws = concat ws"

text \<open>The poem of the source: two lines of verse, with full-width commas, a newline and
  an ideographic full stop.\<close>

definition POEM_TEXT :: jsstring where
  "POEM_TEXT =
    [0x5E8A, 0x524D, 0x660E, 0x6708, 0x5149, 0xFF0C, 0x7591, 0x662F, 0x5730, 0x4E0A, 0x971C,
     0xFF0C, 0x0A, 0x4E3E, 0x5934, 0x671B, 0x660E, 0x6708, 0xFF0C, 0x4F4E, 0x5934, 0x601D,
     0x6545, 0x4E61, 0x3002]"

text \<open>
  The specification's words, for comparison with the code: the list of first-seen distinct
  elements keeps the first occurrence of every element and drops the later ones.
\<close>

function first_seen :: "'a list \<Rightarrow> 'a list" where
  "first_seen [] = []"
| "first_seen (x # xs) = x # first_seen (removeAll x xs)"
  by pat_completeness auto
termination
  by (relation "measure length") (auto simp: less_Suc_eq_le)

text \<open>The class as the specification lists it: commas, periods, their full-width forms,
  spaces, tabs and newlines.\<close>

definition spec_class :: "codeunit list" where
  "spec_class = [0x2C, 0x2E, 0xFF0C, 0x3002, 0x20, 0x09, 0x0A]"


section \<open>JavaScript numbers\<close>

text \<open>
  A JavaScript number is a real, an infinity or NaN.  Rounding to 64-bit (and, in the
  typed arrays and the shaders, 32-bit) floating point and the sign of zero are left out:
  arithmetic on finite values is arithmetic on the reals.
\<close>

datatype jsnum = Fin real | PosInf | NegInf | NaN

fun js_div :: "jsnum \<Rightarrow> jsnum \<Rightarrow> jsnum" where
  "js_div (Fin a) (Fin b) =
     (if b \<noteq> 0 then Fin (a / b)
      else if a = 0 then NaN else if 0 < a then PosInf else NegInf)"
| "js_div (Fin a) PosInf = Fin 0"
| "js_div (Fin a) NegInf = Fin 0"
| "js_div PosInf (Fin b) = (if 0 \<le> b then PosInf else NegInf)"
| "js_div NegInf (Fin b) = (if 0 \<le> b then NegInf else PosInf)"
| "js_div _ _ = NaN"

fun js_mul :: "jsnum \<Rightarrow> jsnum \<Rightarrow> jsnum" where
  "js_mul (Fin a) (Fin b) = Fin (a * b)"
| "js_mul NaN _ = NaN"
| "js_mul _ NaN = NaN"
| "js_mul PosInf (Fin b) = (if b = 0 then NaN else if 0 < b then PosInf else NegInf)"
| "js_mul NegInf (Fin b) = (if b = 0 then NaN else if 0 < b then NegInf else PosInf)"
| "js_mul (Fin a) PosInf = (if a = 0 then NaN else if 0 < a then PosInf else NegInf)"
| "js_mul (Fin a) NegInf = (if a = 0 then NaN else if 0 < a then NegInf else PosInf)"
| "js_mul PosInf PosInf = PosInf"
| "js_mul NegInf NegInf = PosInf"
| "js_mul PosInf NegInf = NegInf"
| "js_mul NegInf PosInf = NegInf"

fun js_add :: "jsnum \<Rightarrow> jsnum \<Rightarrow> jsnum" where
  "js_add (Fin a) (Fin b) = Fin (a + b)"
| "js_add NaN _ = NaN"
| "js_add _ NaN = NaN"
| "js_add PosInf NegInf = NaN"
| "js_add NegInf PosInf = NaN"
| "js_add PosInf _ = PosInf"
| "js_add NegInf _ = NegInf"
| "js_add (Fin a) b = b"

text \<open>\<open>a % b\<close>: the remainder has the sign of the dividend.\<close>

fun js_mod :: "jsnum \<Rightarrow> jsnum \<Rightarrow> jsnum" where
  "js_mod (Fin a) (Fin b) =
     (if b = 0 then NaN
      else if 0 \<le> a then Fin (a - \<bar>b\<bar> * of_int \<lfloor>a / \<bar>b\<bar>\<rfloor>)
      else Fin (- (- a - \<bar>b\<bar> * of_int \<lfloor>- a / \<bar>b\<bar>\<rfloor>)))"
| "js_mod (Fin a) PosInf = Fin a"
| "js_mod (Fin a) NegInf = Fin a"
| "js_mod _ _ = NaN"

fun js_floor :: "jsnum \<Rightarrow> jsnum" where
  "js_floor (Fin a) = Fin (of_int \<lfloor>a\<rfloor>)"
| "js_floor a = a"

fun js_ceil :: "jsnum \<Rightarrow> jsnum" where
  "js_ceil (Fin a) = Fin (of_int \<lceil>a\<rceil>)"
| "js_ceil a = a"

text \<open>\<open>a > b\<close>: false as soon as one side is NaN.\<close>

fun js_gt :: "jsnum \<Rightarrow> jsnum \<Rightarrow> bool" where
  "js_gt (Fin a) (Fin b) = (b < a)"
| "js_gt NaN _ = False"
| "js_gt _ NaN = False"
| "js_gt PosInf PosInf = False"
| "js_gt PosInf _ = True"
| "js_gt _ PosInf = False"
| "js_gt NegInf _ = False"
| "js_gt (Fin a) NegInf = True"

section \<open>The texture atlas (\<open>createWordTextureAtlas\<close>)\<close>

text \<open>
  What the function reads from its surroundings: whether \<open>document\<close> is defined,
  whether the canvas hands out a 2D context, and the width that \<open>ctx.measureText\<close>
  reports for a word at a font size.
\<close>

record environment =
  document_defined :: bool
  context_2d :: bool
  measureText :: "jsnum \<Rightarrow> jsstring \<Rightarrow> jsnum"

text \<open>One \<open>ctx.fillText(word, centerX, centerY)\<close>, with the font size set when it is
  issued and the cell \<open>(col, row)\<close> the centre was computed from.\<close>

record draw_call =
  word :: jsstring
  col :: jsnum
  row :: jsnum
  centerX :: jsnum
  centerY :: jsnum
  fontSize :: jsnum

text \<open>\<open>new THREE.Texture()\<close> has no image; \<open>new THREE.CanvasTexture(canvas)\<close> shows
  the canvas, which is the cleared surface with the glyphs drawn so far.\<close>

datatype texture = Texture | CanvasTexture "draw_call list"

record atlas =
  texture :: texture
  cols :: jsnum
  rows :: jsnum

definition size_px :: real where
  "size_px = 2048"

text \<open>The body of \<open>words.forEach((word, i) => ...)\<close>.\<close>

definition draw_word ::
  "environment \<Rightarrow> jsnum \<Rightarrow> jsnum \<Rightarrow> jsnum \<Rightarrow> nat \<times> jsstring \<Rightarrow> draw_call" where
  "draw_word env cs cellWidth cellHeight iw =
     (let i = Fin (real (fst iw)); w = snd iw;
          c = js_mod i cs;
          r = js_floor (js_div i cs);
          cx = js_add (js_mul c cellWidth) (js_div cellWidth (Fin 2));
          cy = js_add (js_mul r cellHeight) (js_div cellHeight (Fin 2));
          fontSize0 = js_mul cellHeight (Fin 0.75);
          textWidth = measureText env fontSize0 w;
          maxWidth = js_mul cellWidth (Fin 0.9);
          fontSize1 = (if js_gt textWidth maxWidth
                       then js_mul fontSize0 (js_div maxWidth textWidth) else fontSize0)
      in \<lparr>word = w, col = c, row = r, centerX = cx, centerY = cy, fontSize = fontSize1\<rparr>)"

definition createWordTextureAtlas :: "environment \<Rightarrow> jsstring list \<Rightarrow> atlas" where
  "createWordTextureAtlas env words =
     (if \<not> document_defined env then \<lparr>texture = Texture, cols = Fin 1, rows = Fin 1\<rparr>
      else
        let count = Fin (real (length words));
            cs = Fin (of_int \<lceil>sqrt (real (length words))\<rceil>);
            rs = js_ceil (js_div count cs)
        in if \<not> context_2d env then \<lparr>texture = Texture, cols = Fin 1, rows = Fin 1\<rparr>
           else
             let cellWidth = js_div (Fin size_px) cs;
                 cellHeight = js_div (Fin size_px) rs;
                 drawn = map (draw_word env cs cellWidth cellHeight)
                           (enumerate 0 words)
             in \<lparr>texture = CanvasTexture drawn, cols = cs, rows = rs\<rparr>)"

text \<open>An environment with a document and a 2D context, in which every glyph is as wide as
  its font size.\<close>

definition browser :: environment where
  "browser = \<lparr>document_defined = True, context_2d = True,
               measureText = (\<lambda>fs w. fs)\<rparr>"

section \<open>The shader program (\<open>ParticleShaderMaterial\<close>)\<close>

type_synonym vec2 = "real \<times> real"
type_synonym vec3 = "real \<times> real \<times> real"

subsection \<open>Vertex stage\<close>

text \<open>
  The vertex shader up to the displaced position \<open>pos\<close>; the model-view and projection
  matrices belong to the rendering engine.  The three wiggle lines run in order, so the
  second one reads the \<open>pos.x\<close> that the first one wrote.
\<close>

definition wiggle :: "real \<Rightarrow> vec3 \<Rightarrow> vec3 \<Rightarrow> vec3" where
  "wiggle uTime position aRandom =
     (let time = uTime * 0.3;
          (px, py, pz) = position;
          (rx, ry, rz) = aRandom;
          px1 = px + sin (time + py * 1.5 + rx) * 0.05;
          py1 = py + cos (time + px1 * 1.5 + ry) * 0.05;
          pz1 = pz + sin (time + pz * 1.5 + rz) * 0.05
      in (px1, py1, pz1))"

definition breath :: "real \<Rightarrow> real" where
  "breath uTime = (let time = uTime * 0.3 in sin (time * 0.5) * 0.08)"

definition vertex_pos :: "real \<Rightarrow> vec3 \<Rightarrow> vec3 \<Rightarrow> vec3 \<Rightarrow> vec3" where
  "vertex_pos uTime position aRandom normal =
     (let (px, py, pz) = wiggle uTime position aRandom;
          (nx, ny, nz) = normal;
          b = breath uTime
      in (px + nx * b, py + ny * b, pz + nz * b))"

subsection \<open>Fragment stage\<close>

text \<open>GLSL \<open>mod(x, y)\<close> is \<open>x - y * floor(x / y)\<close>.\<close>

definition glsl_mod :: "real \<Rightarrow> real \<Rightarrow> real" where
  "glsl_mod a b = a - b * of_int \<lfloor>a / b\<rfloor>"

definition atlasUV :: "vec2 \<Rightarrow> real \<Rightarrow> vec2 \<Rightarrow> vec2" where
  "atlasUV uAtlasGrid vWordIndex gl_PointCoord =
     (let uvx = fst gl_PointCoord;
          uvy = 1 - snd gl_PointCoord;
          cs = fst uAtlasGrid;
          rs = snd uAtlasGrid;
          index = of_int \<lfloor>vWordIndex + 0.5\<rfloor>;
          colIndex = glsl_mod index cs;
          rowIndex = of_int \<lfloor>index / cs\<rfloor>
      in ((colIndex + uvx) / cs, 1 - (rowIndex + 1 - uvy) / rs))"

text \<open>
  The rectangle of the texture that the atlas builder gives to the glyph with ordinal
  \<open>i\<close> on a grid of \<open>c\<close> columns and \<open>r\<close> rows: column \<open>i mod c\<close>, row \<open>i div c\<close>
  counted from the top, in texture coordinates, where \<open>v = 1\<close> is the top edge of the
  canvas.  A point is in the cell when it is in the closed rectangle, and strictly inside
  when it is in the open one.
\<close>

definition in_cell :: "nat \<Rightarrow> nat \<Rightarrow> nat \<Rightarrow> vec2 \<Rightarrow> bool" where
  "in_cell c r i p =
     (real (i mod c) / real c \<le> fst p \<and> fst p \<le> (real (i mod c) + 1) / real c \<and>
      1 - (real (i div c) + 1) / real r \<le> snd p \<and> snd p \<le> 1 - real (i div c) / real r)"

definition strictly_in_cell :: "nat \<Rightarrow> nat \<Rightarrow> nat \<Rightarrow> vec2 \<Rightarrow> bool" where
  "strictly_in_cell c r i p =
     (real (i mod c) / real c < fst p \<and> fst p < (real (i mod c) + 1) / real c \<and>
      1 - (real (i div c) + 1) / real r < snd p \<and> snd p < 1 - real (i div c) / real r)"

section \<open>The particle field (\<open>ParticleSphere\<close>)\<close>

text \<open>
  The properties of the component that the generation reads.  \<open>colorTop\<close> and
  \<open>colorBottom\<close> are the channels of \<open>new THREE.Color(...)\<close>.
\<close>

type_synonym rgb = "real \<times> real \<times> real"

record props =
  count :: nat
  radius :: real
  colorTop :: rgb
  colorBottom :: rgb

text \<open>\<open>a.lerp(b, alpha)\<close> of \<open>THREE.Color\<close>: each channel moves by
  \<open>(b - a) * alpha\<close>, with no clamping.\<close>

definition lerp :: "rgb \<Rightarrow> rgb \<Rightarrow> real \<Rightarrow> rgb" where
  "lerp a b alpha =
     (case a of (ar, ag, ab) \<Rightarrow> case b of (br, bg, bb) \<Rightarrow>
        (ar + (br - ar) * alpha, ag + (bg - ag) * alpha, ab + (bb - ab) * alpha))"

text \<open>The five arrays, flat as the source pushes them.\<close>

record geometry =
  positions :: "real list"
  colors :: "real list"
  randoms :: "real list"
  scales :: "real list"
  wordIndexes :: "real list"

text \<open>
  The state of the loop: the arrays, the counter \<open>i\<close>, and the number of calls of
  \<open>Math.random()\<close> made so far.  The random source is a function \<open>rnd\<close>: the call
  number \<open>k\<close> (from 0) returns \<open>rnd k\<close>.
\<close>

record gen_state = geometry +
  i_counter :: nat
  calls :: nat

text \<open>
  One pass through the body of the \<open>while\<close> loop.  A rejected candidate (\<open>continue\<close>)
  has made four calls of \<open>Math.random()\<close>, an accepted one nine.  The arithmetic is that
  of the reals, for a radius other than 0.
\<close>

definition loop_body :: "(nat \<Rightarrow> real) \<Rightarrow> props \<Rightarrow> jsstring list \<Rightarrow> gen_state \<Rightarrow> gen_state" where
  "loop_body rnd P uniqueWords st =
     (let k = calls st;
          u = rnd k;
          v = rnd (k + 1);
          theta = 2 * pi * u;
          phi = arccos (2 * v - 1);
          r = radius P * (0.95 + rnd (k + 2) * 0.1);
          x = r * sin phi * cos theta;
          y = r * cos phi;
          z = r * sin phi * sin theta;
          normalizedY = y / radius P;
          densityVal = \<bar>normalizedY\<bar>;
          densityProbability = 0.25 + 0.75 * (densityVal powr 2.5)
      in if rnd (k + 3) > densityProbability then st\<lparr>calls := k + 4\<rparr>
         else
           let t = (normalizedY + 1) / 2;
               tempColor = lerp (colorBottom P) (colorTop P) t;
               sizeBase = 2.5 - densityVal * 1.5;
               wIdx = \<lfloor>rnd (k + 8) * real (length uniqueWords)\<rfloor>
           in st\<lparr>positions := positions st @ [x, y, z],
                 colors := colors st @ [fst tempColor, fst (snd tempColor), snd (snd tempColor)],
                 randoms := randoms st @ [rnd (k + 4), rnd (k + 5), rnd (k + 6)],
                 scales := scales st @ [sizeBase * (0.8 + rnd (k + 7) * 0.5)],
                 wordIndexes := wordIndexes st @ [of_int wIdx],
                 i_counter := i_counter st + 1,
                 calls := k + 9\<rparr>)"

text \<open>
  \<open>while (positions.length < count * 3) { ... }\<close>.  The loop has no bound of its own, so
  the model counts passes: \<open>gen_loop rnd P ws n st\<close> is the state in which the loop ends
  when it ends within \<open>n\<close> passes through the body, and \<open>None\<close> when after \<open>n\<close> passes
  it is still running.
\<close>

fun gen_loop ::
  "(nat \<Rightarrow> real) \<Rightarrow> props \<Rightarrow> jsstring list \<Rightarrow> nat \<Rightarrow> gen_state \<Rightarrow> gen_state option" where
  "gen_loop rnd P ws 0 st =
     (if length (positions st) < count P * 3 then None else Some st)"
| "gen_loop rnd P ws (Suc n) st =
     (if length (positions st) < count P * 3
      then gen_loop rnd P ws n (loop_body rnd P ws st) else Some st)"

definition init_state :: gen_state where
  "init_state = \<lparr>positions = [], colors = [], randoms = [], scales = [], wordIndexes = [],
                 i_counter = 0, calls = 0\<rparr>"

text \<open>The generation as a whole: the loop from the empty arrays, and the five arrays of
  the state in which it ends.\<close>

definition generate ::
  "(nat \<Rightarrow> real) \<Rightarrow> props \<Rightarrow> jsstring list \<Rightarrow> nat \<Rightarrow> geometry option" where
  "generate rnd P ws n = map_option geometry.truncate (gen_loop rnd P ws n init_state)"

text \<open>The point that a pass draws when its first call of \<open>Math.random()\<close> has number
  \<open>k\<close>, and the test that sends it back (\<open>continue\<close>).\<close>

definition candidate :: "(nat \<Rightarrow> real) \<Rightarrow> real \<Rightarrow> nat \<Rightarrow> vec3" where
  "candidate rnd R k =
     (let theta = 2 * pi * rnd k;
          phi = arccos (2 * rnd (k + 1) - 1);
          r = R * (0.95 + rnd (k + 2) * 0.1)
      in (r * sin phi * cos theta, r * cos phi, r * sin phi * sin theta))"

definition rejects :: "(nat \<Rightarrow> real) \<Rightarrow> real \<Rightarrow> nat \<Rightarrow> bool" where
  "rejects rnd R k =
     (let y = fst (snd (candidate rnd R k));
          densityVal = \<bar>y / R\<bar>
      in rnd (k + 3) > 0.25 + 0.75 * (densityVal powr 2.5))"

text \<open>The colour of an accepted candidate as a function of its height \<open>y\<close>.\<close>

definition color_at :: "props \<Rightarrow> real \<Rightarrow> rgb" where
  "color_at P y = lerp (colorBottom P) (colorTop P) ((y / radius P + 1) / 2)"

text \<open>The particle number \<open>j\<close> of the arrays: its position, its distance from the origin
  and its colour.\<close>

definition position_of :: "'a geometry_scheme \<Rightarrow> nat \<Rightarrow> vec3" where
  "position_of g j =
     (positions g ! (3 * j), positions g ! (3 * j + 1), positions g ! (3 * j + 2))"

definition norm3 :: "vec3 \<Rightarrow> real" where
  "norm3 p = (case p of (x, y, z) \<Rightarrow> sqrt (x\<^sup>2 + y\<^sup>2 + z\<^sup>2))"

definition distance :: "'a geometry_scheme \<Rightarrow> nat \<Rightarrow> real" where
  "distance g j = norm3 (position_of g j)"

definition color_of :: "'a geometry_scheme \<Rightarrow> nat \<Rightarrow> rgb" where
  "color_of g j = (colors g ! (3 * j), colors g ! (3 * j + 1), colors g ! (3 * j + 2))"

definition channels :: "rgb \<Rightarrow> real list" where
  "channels c = (case c of (r, g, b) \<Rightarrow> [r, g, b])"

text \<open>
  The arrays hold \<open>a\<close> whole particles, at most \<open>C\<close>, and every one of them has the
  property \<open>Q\<close> of its position and colour.
\<close>

definition particles :: "(vec3 \<Rightarrow> rgb \<Rightarrow> bool) \<Rightarrow> nat \<Rightarrow> 'a geometry_scheme \<Rightarrow> nat \<Rightarrow> bool" where
  "particles Q C g a =
     (a \<le> C \<and> length (positions g) = 3 * a \<and> length (colors g) = 3 * a
      \<and> length (randoms g) = 3 * a \<and> length (scales g) = a
      \<and> length (wordIndexes g) = a
      \<and> (\<forall>j<a. Q (position_of g j) (color_of g j)))"

text \<open>Random sources and properties for the examples.\<close>

definition zero_rnd :: "nat \<Rightarrow> real" where
  "zero_rnd k = 0"

definition equator_rnd :: "nat \<Rightarrow> real" where
  "equator_rnd k = (if k = 1 then 1 / 2 else 0)"

definition late_rnd :: "nat \<Rightarrow> real" where
  "late_rnd k = (if k < 204 \<and> (k mod 4 = 1 \<or> k mod 4 = 3) then 1 / 2 else 0)"

definition pole_rnd :: "nat \<Rightarrow> real" where
  "pole_rnd k = (if k = 1 then 1 / 100 else if k = 2 then 9 / 10 else 0)"

definition red_blue :: "nat \<Rightarrow> props" where
  "red_blue C = \<lparr>count = C, radius = 1, colorTop = (1, 0, 0), colorBottom = (0, 0, 1)\<rparr>"

definition amber_white :: "nat \<Rightarrow> props" where
  "amber_white C = \<lparr>count = C, radius = 1, colorTop = (1, 1 / 2, 0), colorBottom = (1, 1, 1)\<rparr>"

section \<open>Properties of the glyph extraction\<close>

subsection \<open>Insertion-ordered sets\<close>

lemma removeAll_filter_conv:
  "removeAll x (filter P xs) = filter (\<lambda>y. P y \<and> y \<noteq> x) xs"
  by (induction xs) auto

lemma foldl_set_add:
  "foldl set_add acc xs = acc @ first_seen (filter (\<lambda>x. x \<notin> set acc) xs)"
proof (induction xs arbitrary: acc)
  case Nil
  show ?case by simp
next
  case (Cons x xs)
  show ?case
  proof (cases "x \<in> set acc")
    case True
    then show ?thesis using Cons.IH [of acc] by (simp add: set_add_def)
  next
    case False
    have "foldl set_add acc (x # xs) = foldl set_add (acc @ [x]) xs"
      using False by (simp add: set_add_def)
    also have "\<dots> = (acc @ [x]) @ first_seen (filter (\<lambda>y. y \<notin> set (acc @ [x])) xs)"
      by (rule Cons.IH)
    also have "filter (\<lambda>y. y \<notin> set (acc @ [x])) xs
        = removeAll x (filter (\<lambda>y. y \<notin> set acc) xs)"
      by (simp add: removeAll_filter_conv conj_commute)
    finally show ?thesis using False by simp
  qed
qed

lemma new_Set_first_seen: "new_Set xs = first_seen xs"
  by (simp add: new_Set_def foldl_set_add)

lemma set_first_seen: "set (first_seen xs) = set xs"
  by (induction xs rule: first_seen.induct) auto

lemma distinct_first_seen: "distinct (first_seen xs)"
  by (induction xs rule: first_seen.induct) (auto simp: set_first_seen)

lemma first_seen_distinct_id: "distinct xs \<Longrightarrow> first_seen xs = xs"
  by (induction xs) auto

lemma first_seen_map_inj:
  "inj f \<Longrightarrow> first_seen (map f xs) = map f (first_seen xs)"
proof (induction xs rule: first_seen.induct)
  case 1
  show ?case by simp
next
  case (2 x xs)
  have "removeAll (f x) (map f xs) = map f (removeAll x xs)"
    using \<open>inj f\<close> by (induction xs) (auto dest: injD)
  then show ?case using 2 by simp
qed

lemma inj_single: "inj (\<lambda>c. [c])"
  by (rule injI) simp

lemma getUniqueWords_first_seen:
  "getUniqueWords text = split_chars (first_seen (replace_class text))"
  by (simp add: getUniqueWords_def new_Set_first_seen split_chars_def
      first_seen_map_inj [OF inj_single])

lemma join_split_chars: "join (split_chars s) = s"
  by (induction s) (simp_all add: join_def split_chars_def)


subsection \<open>The glyph set\<close>

lemma set_strip_class:
  "set strip_class = {0x2E, 0x2C, 0x3B, 0xFF0C, 0x3002, 0x20, 0x0A, 0x09}"
  by (auto simp: strip_class_def)

lemma set_getUniqueWords:
  "set (getUniqueWords text) = (\<lambda>c. [c]) ` (set text - set strip_class)"
  by (auto simp: getUniqueWords_first_seen split_chars_def set_first_seen replace_class_def)

lemma distinct_getUniqueWords: "distinct (getUniqueWords text)"
  by (simp add: getUniqueWords_first_seen split_chars_def distinct_map distinct_first_seen
      inj_on_def)

lemma replace_class_idem: "replace_class (replace_class s) = replace_class s"
  by (simp add: replace_class_def)

lemma replace_class_first_seen:
  "replace_class (first_seen (replace_class s)) = first_seen (replace_class s)"
proof -
  have "\<forall>c \<in> set (first_seen (replace_class s)). c \<notin> set strip_class"
    by (simp add: set_first_seen replace_class_def)
  then show ?thesis
    unfolding replace_class_def [of "first_seen _"] by (simp add: filter_id_conv)
qed

text \<open>
  C5 (as amended).  The glyph list is the list of first-seen distinct code units of the
  text without the code units of the class; it has no duplicates; its members are exactly
  the code units of the text outside the class; and the class is full stop, comma,
  semicolon, full-width comma, ideographic full stop, space, newline and tab.
\<close>

theorem getUniqueWords_first_seen_dedup:
  "getUniqueWords text = split_chars (first_seen (filter (\<lambda>c. c \<notin> set strip_class) text))
   \<and> distinct (getUniqueWords text)
   \<and> set (getUniqueWords text) = (\<lambda>c. [c]) ` (set text - set strip_class)
   \<and> set strip_class = {0x2E, 0x2C, 0x3B, 0xFF0C, 0x3002, 0x20, 0x0A, 0x09}"
  using getUniqueWords_first_seen [of "text"] distinct_getUniqueWords [of "text"]
    set_getUniqueWords [of "text"] set_strip_class
  by (simp add: replace_class_def)

text \<open>
  The claim as the specification words it fails on a text that holds a semicolon: the
  semicolon is not in the class that the specification lists, and the extractor drops it.
\<close>

theorem getUniqueWords_semicolon_counterexample:
  "(0x3B :: codeunit) \<in> set [0x3B] \<and> (0x3B :: codeunit) \<notin> set spec_class
   \<and> [0x3B] \<notin> set (getUniqueWords [0x3B])"
  by (simp add: spec_class_def getUniqueWords_def replace_class_def strip_class_def
      split_chars_def new_Set_def)

text \<open>
  C10.  Extracting the glyphs of the concatenated glyph list gives the glyph list again.
\<close>

theorem getUniqueWords_idempotent:
  "getUniqueWords (join (getUniqueWords s)) = getUniqueWords s"
  by (simp add: getUniqueWords_first_seen join_split_chars replace_class_first_seen
      first_seen_distinct_id distinct_first_seen)

lemma getUniqueWords_POEM_TEXT:
  "getUniqueWords POEM_TEXT =
     [[0x5E8A], [0x524D], [0x660E], [0x6708], [0x5149], [0x7591], [0x662F], [0x5730],
      [0x4E0A], [0x971C], [0x4E3E], [0x5934], [0x671B], [0x4F4E], [0x601D], [0x6545],
      [0x4E61]]"
  by (simp add: getUniqueWords_def POEM_TEXT_def replace_class_def strip_class_def
      split_chars_def new_Set_def set_add_def)

section \<open>Properties of the texture atlas\<close>

subsection \<open>Arithmetic of the grid\<close>

lemma js_mod_nat:
  assumes "0 < c"
  shows "js_mod (Fin (real i)) (Fin (real c)) = Fin (real (i mod c))"
proof -
  have "real (i mod c) + real c * real (i div c) = real i"
    unfolding of_nat_mult [symmetric] of_nat_add [symmetric] by simp
  then have "real i - real c * real (i div c) = real (i mod c)"
    by linarith
  then show ?thesis using assms
    by (simp add: floor_divide_of_nat_eq)
qed

lemma grid_covers:
  assumes "0 < n"
  defines "c \<equiv> nat \<lceil>sqrt (real n)\<rceil>"
  defines "r \<equiv> nat \<lceil>real n / real c\<rceil>"
  shows "0 < c" and "n \<le> c * r"
proof -
  show c: "0 < c" using assms(1) by (simp add: c_def ceiling_less_iff)
  have "0 \<le> real n / real c" by simp
  then have "0 \<le> \<lceil>real n / real c\<rceil>"
    using ceiling_mono [of 0 "real n / real c"] by simp
  then have "real r = of_int \<lceil>real n / real c\<rceil>" by (simp add: r_def)
  then have "real n / real c \<le> real r" by simp
  then have "real n \<le> real c * real r" using c by (simp add: field_simps)
  then have "real n \<le> real (c * r)" by simp
  then show "n \<le> c * r" by (simp only: of_nat_le_iff)
qed

lemma cell_inj: "inj_on (\<lambda>i::nat. (i mod c, i div c)) A"
proof (rule inj_onI)
  fix x y :: nat
  assume "(x mod c, x div c) = (y mod c, y div c)"
  then have "x mod c = y mod c" "x div c = y div c" by simp_all
  then have "x div c * c + x mod c = y div c * c + y mod c" by simp
  then show "x = y" by (simp only: div_mult_mod_eq)
qed

lemma cell_in_bounds:
  fixes c r i n :: nat
  assumes "0 < c" and "i < n" and "n \<le> c * r"
  shows "i mod c < c \<and> i div c < r"
proof -
  have "i < r * c" using assms(2,3) by (simp add: mult.commute)
  then have "i div c < r" by (rule less_mult_imp_div_less)
  then show ?thesis using assms(1) by simp
qed

subsection \<open>The draw calls\<close>

lemma draw_word_fin:
  assumes "0 < c"
  shows "draw_word env (Fin (real c)) (Fin cw) (Fin ch) (i, w) =
     \<lparr>word = w, col = Fin (real (i mod c)), row = Fin (real (i div c)),
      centerX = Fin (real (i mod c) * cw + cw / 2),
      centerY = Fin (real (i div c) * ch + ch / 2),
      fontSize = (if js_gt (measureText env (Fin (ch * 0.75)) w) (Fin (cw * 0.9))
                  then js_mul (Fin (ch * 0.75))
                         (js_div (Fin (cw * 0.9)) (measureText env (Fin (ch * 0.75)) w))
                  else Fin (ch * 0.75))\<rparr>"
  using assms js_mod_nat [OF assms, of i]
  by (simp add: draw_word_def Let_def floor_divide_of_nat_eq del: js_mod.simps)

lemma atlas_nonempty:
  assumes "document_defined env" "context_2d env" "words \<noteq> []"
  defines "c \<equiv> nat \<lceil>sqrt (real (length words))\<rceil>"
  defines "r \<equiv> nat \<lceil>real (length words) / real c\<rceil>"
  shows "createWordTextureAtlas env words =
     \<lparr>texture = CanvasTexture
        (map (draw_word env (Fin (real c)) (Fin (size_px / real c)) (Fin (size_px / real r)))
           (enumerate 0 words)),
      cols = Fin (real c), rows = Fin (real r)\<rparr>"
proof -
  have n: "0 < length words" using assms(3) by simp
  have c: "0 < c" and cr: "length words \<le> c * r"
    using grid_covers [OF n] by (simp_all add: c_def r_def)
  have r: "0 < r" using n cr by (cases r) simp_all
  have c_eq: "of_int \<lceil>sqrt (real (length words))\<rceil> = real c"
    by (simp add: c_def)
  have "0 \<le> real (length words) / real c" by simp
  then have "0 \<le> \<lceil>real (length words) / real c\<rceil>"
    using ceiling_mono [of 0 "real (length words) / real c"] by simp
  then have r_eq: "of_int \<lceil>real (length words) / real c\<rceil> = real r"
    by (simp add: r_def)
  show ?thesis
    using assms(1,2) c r
    by (simp add: createWordTextureAtlas_def Let_def c_eq r_eq)
qed

lemma ceiling_sqrt_17: "\<lceil>sqrt 17\<rceil> = 5"
proof (rule ceiling_unique)
  show "real_of_int 5 - 1 < sqrt 17"
    by (simp add: real_less_rsqrt)
  show "sqrt 17 \<le> real_of_int 5"
    by (simp add: real_le_lsqrt)
qed

lemma ceiling_17_5: "\<lceil>17 / 5 :: real\<rceil> = 4"
  by (rule ceiling_unique) simp_all

text \<open>
  C3.  With a document and a 2D context, the atlas of an empty glyph list has a canvas
  texture on which nothing is drawn, but its grid is not 1 by 1: \<open>cols\<close> is
  \<open>Math.ceil(Math.sqrt(0))\<close>, which is 0, and \<open>rows\<close> is \<open>Math.ceil(0 / 0)\<close>, which is
  NaN.  A text of punctuation only, such as a comma and an ideographic full stop, has the
  empty glyph list.
\<close>

theorem atlas_empty_glyph_list:
  "createWordTextureAtlas \<lparr>document_defined = True, context_2d = True, measureText = m\<rparr> []
     = \<lparr>texture = CanvasTexture [], cols = Fin 0, rows = NaN\<rparr>
   \<and> getUniqueWords [0x2C, 0x3002] = []"
  by (simp add: createWordTextureAtlas_def getUniqueWords_def replace_class_def
      strip_class_def split_chars_def new_Set_def)

text \<open>
  C6.  With a document and a 2D context, the atlas of \<open>n \<ge> 1\<close> glyphs has
  \<open>cols = \<lceil>sqrt n\<rceil>\<close> and \<open>rows = \<lceil>n / cols\<rceil>\<close>, and \<open>cols * rows \<ge> n\<close>.  There is one
  draw call for each glyph, in order; the call for glyph \<open>i\<close> is made for the cell in
  column \<open>i mod cols\<close> and row \<open>i div cols\<close>, which lies inside the grid, and its centre
  is the centre of that cell, rows counted downwards from the top of the canvas.  No two
  glyphs share a cell.
\<close>

theorem atlas_layout:
  assumes "document_defined env" and "context_2d env" and "words \<noteq> []"
  defines "n \<equiv> length words"
  defines "c \<equiv> nat \<lceil>sqrt (real (length words))\<rceil>"
  defines "r \<equiv> nat \<lceil>real (length words) / real (nat \<lceil>sqrt (real (length words))\<rceil>)\<rceil>"
  shows "cols (createWordTextureAtlas env words) = Fin (real c)
    \<and> rows (createWordTextureAtlas env words) = Fin (real r)
    \<and> 0 < c \<and> n \<le> c * r
    \<and> (\<exists>ds. texture (createWordTextureAtlas env words) = CanvasTexture ds
          \<and> length ds = n
          \<and> (\<forall>i<n. word (ds ! i) = words ! i
                 \<and> col (ds ! i) = Fin (real (i mod c)) \<and> row (ds ! i) = Fin (real (i div c))
                 \<and> i mod c < c \<and> i div c < r
                 \<and> centerX (ds ! i)
                     = Fin (real (i mod c) * (size_px / real c) + size_px / real c / 2)
                 \<and> centerY (ds ! i)
                     = Fin (real (i div c) * (size_px / real r) + size_px / real r / 2)))
    \<and> inj_on (\<lambda>i. (i mod c, i div c)) {..<n}"
proof -
  define ds where "ds =
    map (draw_word env (Fin (real c)) (Fin (size_px / real c)) (Fin (size_px / real r)))
      (enumerate 0 words)"
  have n: "0 < length words" using assms(3) by simp
  have c: "0 < c" and cr: "n \<le> c * r"
    using grid_covers [OF n] by (simp_all add: c_def r_def n_def)
  have A: "createWordTextureAtlas env words =
     \<lparr>texture = CanvasTexture ds, cols = Fin (real c), rows = Fin (real r)\<rparr>"
    using atlas_nonempty [OF assms(1-3)] by (simp add: c_def r_def ds_def)
  have draws: "\<forall>i<n. word (ds ! i) = words ! i
    \<and> col (ds ! i) = Fin (real (i mod c)) \<and> row (ds ! i) = Fin (real (i div c))
    \<and> i mod c < c \<and> i div c < r
    \<and> centerX (ds ! i) = Fin (real (i mod c) * (size_px / real c) + size_px / real c / 2)
    \<and> centerY (ds ! i) = Fin (real (i div c) * (size_px / real r) + size_px / real r / 2)"
    using cell_in_bounds [OF c _ cr]
    by (simp add: ds_def n_def nth_enumerate_eq draw_word_fin [OF c])
  have len: "length ds = n" by (simp add: ds_def n_def)
  show ?thesis
    unfolding A using c cr draws len by (simp add: cell_inj)
qed

theorem atlas_layout_witness:
  "document_defined browser \<and> context_2d browser \<and> getUniqueWords POEM_TEXT \<noteq> []
   \<and> cols (createWordTextureAtlas browser (getUniqueWords POEM_TEXT)) = Fin 5
   \<and> rows (createWordTextureAtlas browser (getUniqueWords POEM_TEXT)) = Fin 4
   \<and> inj_on (\<lambda>i::nat. (i mod 5, i div 5)) {..<17}"
proof -
  have env: "document_defined browser" "context_2d browser"
    by (simp_all add: browser_def)
  have ne: "getUniqueWords POEM_TEXT \<noteq> []"
    by (simp add: getUniqueWords_POEM_TEXT)
  have len: "length (getUniqueWords POEM_TEXT) = 17"
    by (simp add: getUniqueWords_POEM_TEXT)
  have c: "nat \<lceil>sqrt (real (17::nat))\<rceil> = 5"
    by (simp add: ceiling_sqrt_17)
  have r: "nat \<lceil>real (17::nat) / real (5::nat)\<rceil> = 4"
    by (simp add: ceiling_17_5)
  from atlas_layout [OF env ne] show ?thesis
    unfolding len c r using env ne by simp
qed

section \<open>Properties of the shader program\<close>

subsection \<open>Breathing\<close>

lemma breath_eq: "breath uTime = sin (uTime * 0.15) * 0.08"
  by (simp add: breath_def Let_def)

text \<open>
  C9 (as amended).  The vertex stage first scales the elapsed time, \<open>time = uTime * 0.3\<close>,
  and the breathing offset is computed from the scaled time: it is
  \<open>sin (uTime * 0.3 * 0.5) * 0.08\<close>, and the displaced position is the wiggled position
  plus that offset times the normal.
\<close>

theorem vertex_breathing:
  "breath uTime = sin (uTime * 0.3 * 0.5) * 0.08
   \<and> vertex_pos uTime position aRandom (nx, ny, nz) =
       (case wiggle uTime position aRandom of
          (wx, wy, wz) \<Rightarrow>
            (wx + nx * breath uTime, wy + ny * breath uTime, wz + nz * breath uTime))"
  by (simp add: breath_def vertex_pos_def Let_def)

text \<open>
  After one second the offset is \<open>sin 0.15 * 0.08\<close>, not \<open>sin 0.5 * 0.08\<close>.
\<close>

theorem breathing_counterexample:
  "breath 1 \<noteq> sin (1 * 0.5) * 0.08"
proof -
  have "(1::real) / 2 \<le> pi / 2" using pi_ge_two by simp
  then have "sin (0.15::real) < sin (1/2)"
    by (intro sin_monotone_2pi) simp_all
  then show ?thesis by (simp add: breath_eq)
qed

subsection \<open>Atlas lookup\<close>

lemma glsl_mod_nat:
  assumes "0 < c"
  shows "glsl_mod (real i) (real c) = real (i mod c)"
proof -
  have "real (i mod c) + real c * real (i div c) = real i"
    unfolding of_nat_mult [symmetric] of_nat_add [symmetric] by simp
  then have "real i - real c * real (i div c) = real (i mod c)"
    by linarith
  then show ?thesis using assms
    by (simp add: glsl_mod_def floor_divide_of_nat_eq)
qed

lemma round_index:
  assumes "real idx - 1/2 \<le> w" and "w < real idx + 1/2"
  shows "\<lfloor>w + 1 / 2\<rfloor> = int idx"
  using assms by (intro floor_unique) simp_all

lemma atlasUV_cell:
  assumes "0 < c" and "real idx - 1/2 \<le> w" and "w < real idx + 1/2"
  shows "atlasUV (real c, real r) w (u, v) =
     ((real (idx mod c) + u) / real c, 1 - (real (idx div c) + 1 - (1 - v)) / real r)"
  using assms(1) glsl_mod_nat [OF assms(1), of idx]
  by (simp add: atlasUV_def Let_def round_index [OF assms(2,3)] floor_divide_of_nat_eq)


lemma cells_disjoint:
  assumes "0 < c" and "in_cell c r i p" and "strictly_in_cell c r j p"
  shows "j = i"
proof -
  have c: "0 < real c" using assms(1) by simp
  have "real (j mod c) / real c < (real (i mod c) + 1) / real c"
    and "real (i mod c) / real c < (real (j mod c) + 1) / real c"
    using assms(2,3) by (auto simp: in_cell_def strictly_in_cell_def)
  then have "real (j mod c) < real (i mod c) + 1" and "real (i mod c) < real (j mod c) + 1"
    using c by (simp_all add: divide_less_cancel)
  then have m: "j mod c = i mod c" by linarith
  have "1 - (real (j div c) + 1) / real r < 1 - real (i div c) / real r"
    and "1 - (real (i div c) + 1) / real r < 1 - real (j div c) / real r"
    using assms(2,3) by (auto simp: in_cell_def strictly_in_cell_def)
  then have quot: "real (i div c) / real r < (real (j div c) + 1) / real r"
      "real (j div c) / real r < (real (i div c) + 1) / real r"
    by simp_all
  then have r: "0 < real r"
    by (cases "r = 0") simp_all
  from quot have "real (i div c) < real (j div c) + 1" and "real (j div c) < real (i div c) + 1"
    using r by (simp_all add: divide_less_cancel)
  then have d: "j div c = i div c" by linarith
  have "j div c * c + j mod c = i div c * c + i mod c" using m d by simp
  then show ?thesis by (simp only: div_mult_mod_eq)
qed

text \<open>The centre at which the atlas builder draws glyph \<open>i\<close>, taken to texture
  coordinates, lies strictly inside the cell of glyph \<open>i\<close>.\<close>

lemma cell_centre_strictly_in_cell:
  assumes "0 < c" and "0 < r"
  shows "strictly_in_cell c r i
     ((real (i mod c) * (size_px / real c) + size_px / real c / 2) / size_px,
      1 - (real (i div c) * (size_px / real r) + size_px / real r / 2) / size_px)"
proof -
  have c: "0 < real c" and r: "0 < real r" using assms by simp_all
  have x: "(real (i mod c) * (size_px / real c) + size_px / real c / 2) / size_px
      = (real (i mod c) + 1 / 2) / real c"
    using c by (simp add: size_px_def field_simps)
  have y: "(real (i div c) * (size_px / real r) + size_px / real r / 2) / size_px
      = (real (i div c) + 1 / 2) / real r"
    using r by (simp add: size_px_def field_simps)
  show ?thesis
    unfolding strictly_in_cell_def x y fst_conv snd_conv
    using c r by (simp add: divide_less_cancel)
qed

text \<open>
  C7 (as amended).  On a grid of \<open>c\<close> columns and \<open>r\<close> rows, for a glyph index below
  \<open>c * r\<close> and a point coordinate in the closed unit square, the atlas coordinate lies in
  the closed cell of that glyph; it lies strictly inside when the point coordinate is
  strictly inside the unit square; and it is strictly inside the cell of no other glyph.
\<close>

theorem atlasUV_in_cell:
  assumes "0 < c" and "0 < r" and "idx < c * r"
    and "0 \<le> u" and "u \<le> 1" and "0 \<le> v" and "v \<le> 1"
  shows "in_cell c r idx (atlasUV (real c, real r) (real idx) (u, v))
    \<and> (0 < u \<and> u < 1 \<and> 0 < v \<and> v < 1
         \<longrightarrow> strictly_in_cell c r idx (atlasUV (real c, real r) (real idx) (u, v)))
    \<and> (\<forall>j. j \<noteq> idx
         \<longrightarrow> \<not> strictly_in_cell c r j (atlasUV (real c, real r) (real idx) (u, v)))"
proof -
  have uv: "atlasUV (real c, real r) (real idx) (u, v) =
     ((real (idx mod c) + u) / real c, 1 - (real (idx div c) + 1 - (1 - v)) / real r)"
    by (rule atlasUV_cell [OF assms(1)]) simp_all
  have c: "0 < real c" and r: "0 < real r" using assms(1,2) by simp_all
  have 1: "in_cell c r idx (atlasUV (real c, real r) (real idx) (u, v))"
    unfolding uv in_cell_def using c r assms(4-7)
    by (simp add: divide_le_cancel)
  have 2: "strictly_in_cell c r idx (atlasUV (real c, real r) (real idx) (u, v))"
    if "0 < u \<and> u < 1 \<and> 0 < v \<and> v < 1"
    unfolding uv strictly_in_cell_def using c r that
    by (simp add: divide_less_cancel)
  show ?thesis using 1 2 cells_disjoint [OF assms(1) 1] by blast
qed

text \<open>
  On the right edge of the point (\<open>u = 1\<close>) the atlas coordinate of glyph 0 on a 2 by 1
  grid is \<open>(1/2, 1/2)\<close>, on the edge that cell 0 shares with cell 1.
\<close>

theorem atlasUV_edge_counterexample:
  "\<not> strictly_in_cell 2 1 0 (atlasUV (2, 1) 0 (1, 1 / 2))"
  by (simp add: strictly_in_cell_def atlasUV_def glsl_mod_def Let_def)

theorem atlasUV_in_cell_witness:
  "(0::nat) < 2 \<and> (0::nat) < 1 \<and> (1::nat) < 2 * 1
   \<and> (0::real) \<le> 1 / 4 \<and> (1::real) / 4 \<le> 1 \<and> (0::real) \<le> 1 / 2 \<and> (1::real) / 2 \<le> 1
   \<and> atlasUV (2, 1) 1 (1 / 4, 1 / 2) = (5 / 8, 1 / 2)
   \<and> strictly_in_cell 2 1 1 (atlasUV (2, 1) 1 (1 / 4, 1 / 2))
   \<and> \<not> strictly_in_cell 2 1 0 (atlasUV (2, 1) 1 (1 / 4, 1 / 2))"
proof -
  have uv: "atlasUV (2, 1) 1 (1 / 4, 1 / 2) = (5 / 8, 1 / 2)"
    by (simp add: atlasUV_def glsl_mod_def Let_def)
  from atlasUV_in_cell [of 2 1 1 "1 / 4" "1 / 2"] show ?thesis
    using uv by simp
qed

section \<open>Properties of the particle field\<close>

subsection \<open>One pass through the loop body\<close>

lemma loop_body_reject:
  assumes "rejects rnd (radius P) (calls st)"
  shows "loop_body rnd P ws st = st\<lparr>calls := calls st + 4\<rparr>"
  using assms
  unfolding loop_body_def rejects_def candidate_def Let_def fst_conv snd_conv
  by (simp only: if_True)

lemma loop_body_accept:
  assumes "\<not> rejects rnd (radius P) (calls st)"
  defines "p \<equiv> candidate rnd (radius P) (calls st)"
  defines "c \<equiv> color_at P (fst (snd p))"
  shows "loop_body rnd P ws st =
     st\<lparr>positions := positions st @ [fst p, fst (snd p), snd (snd p)],
        colors := colors st @ [fst c, fst (snd c), snd (snd c)],
        randoms := randoms st
           @ [rnd (calls st + 4), rnd (calls st + 5), rnd (calls st + 6)],
        scales := scales st
           @ [(2.5 - \<bar>fst (snd p) / radius P\<bar> * 1.5) * (0.8 + rnd (calls st + 7) * 0.5)],
        wordIndexes := wordIndexes st
           @ [of_int \<lfloor>rnd (calls st + 8) * real (length ws)\<rfloor>],
        i_counter := i_counter st + 1,
        calls := calls st + 9\<rparr>"
  using assms(1)
  unfolding p_def c_def loop_body_def rejects_def candidate_def color_at_def Let_def
    fst_conv snd_conv
  by (simp only: if_False)

subsection \<open>Candidates lie on the jittered sphere\<close>

lemma sphere_identity:
  fixes r p t :: real
  shows "(r * sin p * cos t)\<^sup>2 + (r * cos p)\<^sup>2 + (r * sin p * sin t)\<^sup>2 = r\<^sup>2"
proof -
  have "(r * s1 * c2)\<^sup>2 + (r * c1)\<^sup>2 + (r * s1 * s2)\<^sup>2 = r\<^sup>2"
    if "s1\<^sup>2 + c1\<^sup>2 = 1" and "s2\<^sup>2 + c2\<^sup>2 = 1" for s1 c1 s2 c2 :: real
    using that by algebra
  then show ?thesis by simp
qed

lemma norm3_candidate:
  assumes "0 \<le> R * (0.95 + rnd (k + 2) * 0.1)"
  shows "norm3 (candidate rnd R k) = R * (0.95 + rnd (k + 2) * 0.1)"
  using assms
  unfolding norm3_def candidate_def Let_def prod.case sphere_identity
  by (simp only: real_sqrt_abs abs_of_nonneg)


subsection \<open>The loop keeps whole particles\<close>

lemma particles_calls:
  "particles Q C (st\<lparr>calls := k\<rparr>) a = particles Q C st a"
  by (simp add: particles_def position_of_def color_of_def)

lemma particles_push:
  assumes "particles Q C st a" and "a < C" and "Q (x, y, z) (cr, cg, cb)"
  shows "particles Q C
     (st\<lparr>positions := positions st @ [x, y, z],
        colors := colors st @ [cr, cg, cb],
        randoms := randoms st @ [r1, r2, r3],
        scales := scales st @ [s],
        wordIndexes := wordIndexes st @ [w],
        i_counter := i,
        calls := k\<rparr>) (Suc a)"
proof -
  define st' where "st' = st\<lparr>positions := positions st @ [x, y, z],
        colors := colors st @ [cr, cg, cb],
        randoms := randoms st @ [r1, r2, r3],
        scales := scales st @ [s],
        wordIndexes := wordIndexes st @ [w],
        i_counter := i,
        calls := k\<rparr>"
  have len: "length (positions st) = 3 * a" "length (colors st) = 3 * a"
    and old: "\<forall>j<a. Q (position_of st j) (color_of st j)"
    using assms(1) by (simp_all add: particles_def)
  have "Q (position_of st' j) (color_of st' j)" if "j < Suc a" for j
  proof (cases "j < a")
    case True
    then have "Q (position_of st j) (color_of st j)" using old by simp
    then show ?thesis using True len
      by (simp add: st'_def position_of_def color_of_def nth_append)
  next
    case False
    then have "j = a" using that by simp
    then show ?thesis using len assms(3)
      by (simp add: st'_def position_of_def color_of_def nth_append)
  qed
  then have "particles Q C st' (Suc a)" using assms(1,2)
    by (simp add: particles_def st'_def)
  then show ?thesis by (simp only: st'_def)
qed

lemma particles_body:
  assumes step: "\<And>k. \<not> rejects rnd (radius P) k \<Longrightarrow>
      Q (candidate rnd (radius P) k) (color_at P (fst (snd (candidate rnd (radius P) k))))"
    and "particles Q (count P) st a" and "a < count P"
  shows "particles Q (count P) (loop_body rnd P ws st)
           (if rejects rnd (radius P) (calls st) then a else Suc a)"
proof (cases "rejects rnd (radius P) (calls st)")
  case True
  then show ?thesis using assms(2)
    by (simp add: loop_body_reject particles_calls)
next
  case False
  have "Q (fst (candidate rnd (radius P) (calls st)),
           fst (snd (candidate rnd (radius P) (calls st))),
           snd (snd (candidate rnd (radius P) (calls st))))
          (fst (color_at P (fst (snd (candidate rnd (radius P) (calls st))))),
           fst (snd (color_at P (fst (snd (candidate rnd (radius P) (calls st)))))),
           snd (snd (color_at P (fst (snd (candidate rnd (radius P) (calls st)))))))"
    using step [OF False] by simp
  then show ?thesis using False
    by (simp only: loop_body_accept [OF False] if_False
        particles_push [OF assms(2,3)])
qed

lemma particles_full:
  assumes "particles Q C st a" and "\<not> length (positions st) < C * 3"
  shows "a = C"
  using assms by (simp add: particles_def)

lemma particles_running:
  assumes "particles Q C st a" and "length (positions st) < C * 3"
  shows "a < C"
  using assms by (simp add: particles_def)

lemma gen_loop_particles:
  assumes step: "\<And>k. \<not> rejects rnd (radius P) k \<Longrightarrow>
      Q (candidate rnd (radius P) k) (color_at P (fst (snd (candidate rnd (radius P) k))))"
    and "particles Q (count P) st a" and "gen_loop rnd P ws n st = Some st'"
  shows "particles Q (count P) st' (count P)"
  using assms(2,3)
proof (induction n arbitrary: st a)
  case 0
  then show ?case
    using particles_full [of Q "count P" st a] by (simp split: if_splits)
next
  case (Suc n)
  show ?case
  proof (cases "length (positions st) < count P * 3")
    case True
    then have "a < count P" using Suc.prems(1) by (rule particles_running [rotated])
    then have "particles Q (count P) (loop_body rnd P ws st)
           (if rejects rnd (radius P) (calls st) then a else Suc a)"
      using particles_body [OF step Suc.prems(1)] by simp
    moreover have "gen_loop rnd P ws n (loop_body rnd P ws st) = Some st'"
      using Suc.prems(2) True by simp
    ultimately show ?thesis by (rule Suc.IH)
  next
    case False
    then show ?thesis using Suc.prems particles_full [of Q "count P" st a] by simp
  qed
qed


subsection \<open>Rejected candidates and the end of the loop\<close>

lemma gen_loop_skip:
  assumes "\<forall>m<n. rejects rnd (radius P) (calls st + 4 * m)"
    and "length (positions st) < count P * 3"
  shows "gen_loop rnd P ws (n + f) st = gen_loop rnd P ws f (st\<lparr>calls := calls st + 4 * n\<rparr>)"
  using assms
proof (induction n arbitrary: st)
  case 0
  show ?case by simp
next
  case (Suc n)
  have first: "rejects rnd (radius P) (calls st)"
    using Suc.prems(1) [rule_format, of 0] by simp
  have rest: "\<forall>m<n. rejects rnd (radius P) (calls (st\<lparr>calls := calls st + 4\<rparr>) + 4 * m)"
  proof (intro allI impI)
    fix m assume "m < n"
    then have "Suc m < Suc n" by simp
    then have "rejects rnd (radius P) (calls st + 4 * Suc m)"
      using Suc.prems(1) by blast
    then show "rejects rnd (radius P) (calls (st\<lparr>calls := calls st + 4\<rparr>) + 4 * m)"
      by (simp add: add.assoc)
  qed
  have "gen_loop rnd P ws (Suc n + f) st
      = gen_loop rnd P ws (n + f) (st\<lparr>calls := calls st + 4\<rparr>)"
    using Suc.prems(2) by (simp add: loop_body_reject [OF first])
  also have "\<dots> = gen_loop rnd P ws f
      (st\<lparr>calls := calls st + 4\<rparr>\<lparr>calls := calls (st\<lparr>calls := calls st + 4\<rparr>) + 4 * n\<rparr>)"
    using rest Suc.prems(2) by (intro Suc.IH) simp_all
  finally show ?case by (simp add: add.assoc)
qed

lemma gen_loop_mono:
  assumes "gen_loop rnd P ws n st = Some st'"
  shows "gen_loop rnd P ws (n + d) st = Some st'"
  using assms
proof (induction n arbitrary: st)
  case 0
  then show ?case by (cases d) (simp_all split: if_splits)
next
  case (Suc n)
  then show ?case by (simp split: if_splits)
qed

lemma gen_loop_terminates:
  assumes fair: "\<forall>k. \<exists>n. \<not> rejects rnd (radius P) (k + 4 * n)"
    and "particles (\<lambda>p c. True) (count P) st a"
  shows "\<exists>n st'. gen_loop rnd P ws n st = Some st'"
  using assms(2)
proof (induction "count P - a" arbitrary: st a)
  case 0
  then have "a = count P" by (simp add: particles_def)
  then have "gen_loop rnd P ws 0 st = Some st"
    using 0 by (simp add: particles_def)
  then show ?case by blast
next
  case (Suc d)
  then have a: "a < count P" by simp
  then have run: "length (positions st) < count P * 3"
    using Suc.prems by (simp add: particles_def)
  define n0 where "n0 = (LEAST n. \<not> rejects rnd (radius P) (calls st + 4 * n))"
  have acc: "\<not> rejects rnd (radius P) (calls st + 4 * n0)"
    unfolding n0_def using fair [rule_format, of "calls st"] by (rule LeastI_ex)
  have rej: "\<forall>m<n0. rejects rnd (radius P) (calls st + 4 * m)"
    unfolding n0_def using not_less_Least by blast
  define st1 where "st1 = st\<lparr>calls := calls st + 4 * n0\<rparr>"
  have p1: "particles (\<lambda>p c. True) (count P) st1 a"
    using Suc.prems by (simp add: st1_def particles_calls)
  have acc1: "\<not> rejects rnd (radius P) (calls st1)"
    using acc by (simp add: st1_def)
  have run1: "length (positions st1) < count P * 3"
    using run by (simp add: st1_def)
  have "particles (\<lambda>p c. True) (count P) (loop_body rnd P ws st1)
           (if rejects rnd (radius P) (calls st1) then a else Suc a)"
    by (rule particles_body [OF _ p1 a]) simp
  then have p2: "particles (\<lambda>p c. True) (count P) (loop_body rnd P ws st1) (Suc a)"
    using acc1 by simp
  have "d = count P - Suc a" using Suc.hyps(2) by simp
  then obtain f st' where f: "gen_loop rnd P ws f (loop_body rnd P ws st1) = Some st'"
    using Suc.hyps(1) [OF _ p2] by blast
  have "gen_loop rnd P ws (n0 + Suc f) st = gen_loop rnd P ws (Suc f) st1"
    unfolding st1_def by (rule gen_loop_skip [OF rej run])
  also have "\<dots> = Some st'" using run1 f by simp
  finally show ?case by blast
qed


subsection \<open>The generated arrays\<close>

lemma particles_init: "particles Q C init_state 0"
  by (simp add: particles_def init_state_def)

lemma particles_truncate:
  "particles Q C (geometry.truncate st) a = particles Q C st a"
  by (simp add: particles_def position_of_def color_of_def geometry.truncate_def)

lemma generate_particles:
  assumes step: "\<And>k. \<not> rejects rnd (radius P) k \<Longrightarrow>
      Q (candidate rnd (radius P) k) (color_at P (fst (snd (candidate rnd (radius P) k))))"
    and "generate rnd P ws n = Some g"
  shows "particles Q (count P) g (count P)"
proof -
  obtain st' where st': "gen_loop rnd P ws n init_state = Some st'"
    and g: "g = geometry.truncate st'"
    using assms(2) by (auto simp: generate_def)
  have "particles Q (count P) st' (count P)"
    using step particles_init st' by (rule gen_loop_particles)
  then show ?thesis by (simp add: g particles_truncate)
qed

lemma generate_terminates:
  assumes "\<forall>k. \<exists>n. \<not> rejects rnd (radius P) (k + 4 * n)"
  shows "\<exists>n g. generate rnd P ws n = Some g"
  using gen_loop_terminates [OF assms particles_init, of ws]
  by (auto simp: generate_def)

lemma candidate_on_shell:
  assumes "0 < R" and "0 \<le> rnd (k + 2)" and "rnd (k + 2) < 1"
  shows "0.95 * R \<le> norm3 (candidate rnd R k) \<and> norm3 (candidate rnd R k) \<le> 1.05 * R"
proof -
  have "0 \<le> R * (0.95 + rnd (k + 2) * 0.1)" using assms by simp
  then have "norm3 (candidate rnd R k) = R * (0.95 + rnd (k + 2) * 0.1)"
    by (rule norm3_candidate)
  moreover have "0.95 * R \<le> R * (0.95 + rnd (k + 2) * 0.1)"
    using assms by (simp add: algebra_simps)
  moreover have "R * (0.95 + rnd (k + 2) * 0.1) \<le> 1.05 * R"
    using assms by (simp add: algebra_simps)
  ultimately show ?thesis by simp
qed

text \<open>
  C2.  Let the radius be positive, let every value of the random source lie in \<open>[0, 1)\<close>,
  and let the source be fair to the sampler: from every call on, some candidate is accepted.
  Then the generation returns, and whenever it returns, the position, colour and random
  arrays hold three numbers and the scale and glyph-index arrays one number for each of
  exactly \<open>count\<close> particles, and every position lies at a distance between
  \<open>0.95 * radius\<close> and \<open>1.05 * radius\<close> from the origin.
\<close>

theorem generate_exact_count_on_shell:
  assumes "0 < radius P"
    and "\<forall>k. 0 \<le> rnd k \<and> rnd k < 1"
    and "\<forall>k. \<exists>n. \<not> rejects rnd (radius P) (k + 4 * n)"
  shows "(\<exists>n g. generate rnd P ws n = Some g)
    \<and> (\<forall>n g. generate rnd P ws n = Some g \<longrightarrow>
          length (positions g) = 3 * count P \<and> length (colors g) = 3 * count P
          \<and> length (randoms g) = 3 * count P \<and> length (scales g) = count P
          \<and> length (wordIndexes g) = count P
          \<and> (\<forall>j<count P. 0.95 * radius P \<le> distance g j
                \<and> distance g j \<le> 1.05 * radius P))"
proof -
  have "particles (\<lambda>p c. 0.95 * radius P \<le> norm3 p \<and> norm3 p \<le> 1.05 * radius P)
          (count P) g (count P)"
    if "generate rnd P ws n = Some g" for n g
    using candidate_on_shell [OF assms(1)] assms(2) that
    by (intro generate_particles [where rnd = rnd and ws = ws and n = n]) simp_all
  then show ?thesis
    using generate_terminates [OF assms(3)]
    by (simp add: particles_def distance_def)
qed

lemma zero_rnd_accepts: "\<not> rejects zero_rnd 1 k"
  by (simp add: rejects_def candidate_def zero_rnd_def Let_def not_less)

theorem generate_exact_count_on_shell_witness:
  "0 < radius (red_blue 2)
   \<and> (\<forall>k. 0 \<le> zero_rnd k \<and> zero_rnd k < 1)
   \<and> (\<forall>k. \<exists>n. \<not> rejects zero_rnd (radius (red_blue 2)) (k + 4 * n))
   \<and> (\<exists>n g. generate zero_rnd (red_blue 2) [] n = Some g
          \<and> length (positions g) = 6 \<and> length (colors g) = 6 \<and> length (randoms g) = 6
          \<and> length (scales g) = 2 \<and> length (wordIndexes g) = 2
          \<and> 0.95 \<le> distance g 0 \<and> distance g 0 \<le> 1.05
          \<and> 0.95 \<le> distance g 1 \<and> distance g 1 \<le> 1.05)"
proof -
  have 1: "0 < radius (red_blue 2)" by (simp add: red_blue_def)
  have 2: "\<forall>k. 0 \<le> zero_rnd k \<and> zero_rnd k < 1" by (simp add: zero_rnd_def)
  have 3: "\<forall>k. \<exists>n. \<not> rejects zero_rnd (radius (red_blue 2)) (k + 4 * n)"
    by (simp add: red_blue_def zero_rnd_accepts)
  note inst = generate_exact_count_on_shell [OF 1 2 3, of "[]"]
  from inst obtain n g where g: "generate zero_rnd (red_blue 2) [] n = Some g"
    by blast
  with inst have "length (positions g) = 3 * count (red_blue 2)
      \<and> length (colors g) = 3 * count (red_blue 2)
      \<and> length (randoms g) = 3 * count (red_blue 2)
      \<and> length (scales g) = count (red_blue 2)
      \<and> length (wordIndexes g) = count (red_blue 2)
      \<and> (\<forall>j<count (red_blue 2). 0.95 * radius (red_blue 2) \<le> distance g j
            \<and> distance g j \<le> 1.05 * radius (red_blue 2))"
    by blast
  then have "length (positions g) = 6 \<and> length (colors g) = 6 \<and> length (randoms g) = 6
      \<and> length (scales g) = 2 \<and> length (wordIndexes g) = 2
      \<and> 0.95 \<le> distance g 0 \<and> distance g 0 \<le> 1.05
      \<and> 0.95 \<le> distance g 1 \<and> distance g 1 \<le> 1.05"
    by (simp add: red_blue_def)
  with g 1 2 3 show ?thesis by blast
qed

subsection \<open>No bound on the number of passes\<close>

lemma generate_rejected:
  assumes "0 < count P" and "\<forall>m<n. rejects rnd (radius P) (4 * m)"
  shows "generate rnd P ws n = None"
    and "generate rnd P ws (n + f)
           = map_option geometry.truncate (gen_loop rnd P ws f (init_state\<lparr>calls := 4 * n\<rparr>))"
proof -
  have rej: "\<forall>m<n. rejects rnd (radius P) (calls init_state + 4 * m)"
    using assms(2) by (simp add: init_state_def)
  have run: "length (positions init_state) < count P * 3"
    using assms(1) by (simp add: init_state_def)
  have skip: "gen_loop rnd P ws (n + f) init_state
      = gen_loop rnd P ws f (init_state\<lparr>calls := 4 * n\<rparr>)" for f
    using gen_loop_skip [OF rej run, of ws f] by (simp add: init_state_def)
  show "generate rnd P ws n = None"
    using skip [of 0] assms(1) by (simp add: generate_def init_state_def)
  show "generate rnd P ws (n + f)
           = map_option geometry.truncate (gen_loop rnd P ws f (init_state\<lparr>calls := 4 * n\<rparr>))"
    by (simp add: generate_def skip)
qed

text \<open>
  C1 (as amended).  The loop has no cap on its passes and no failure result.  Whenever the
  generation returns, every array is complete for exactly \<open>count\<close> particles.  For every
  \<open>n\<close>, when the first \<open>n\<close> candidates are rejected, the loop is still running after
  \<open>n\<close> passes; and when the candidates after them are accepted, it goes on and returns
  after more than \<open>n\<close> passes.
\<close>

theorem generate_no_iteration_cap:
  "(\<forall>g. generate rnd P ws n = Some g \<longrightarrow>
        length (positions g) = 3 * count P \<and> length (colors g) = 3 * count P
        \<and> length (randoms g) = 3 * count P \<and> length (scales g) = count P
        \<and> length (wordIndexes g) = count P)
   \<and> (0 < count P \<and> (\<forall>m<n. rejects rnd (radius P) (4 * m)) \<longrightarrow>
        generate rnd P ws n = None)
   \<and> (0 < count P \<and> (\<forall>m<n. rejects rnd (radius P) (4 * m))
        \<and> (\<forall>k\<ge>4 * n. \<not> rejects rnd (radius P) k) \<longrightarrow>
        (\<exists>f g. generate rnd P ws (n + Suc f) = Some g))"
proof (intro conjI allI impI)
  fix g assume "generate rnd P ws n = Some g"
  then have "particles (\<lambda>p c. True) (count P) g (count P)"
    by (intro generate_particles [where rnd = rnd and ws = ws and n = n]) simp_all
  then show "length (positions g) = 3 * count P" "length (colors g) = 3 * count P"
    "length (randoms g) = 3 * count P" "length (scales g) = count P"
    "length (wordIndexes g) = count P"
    by (simp_all add: particles_def)
next
  assume "0 < count P \<and> (\<forall>m<n. rejects rnd (radius P) (4 * m))"
  then show "generate rnd P ws n = None"
    using generate_rejected(1) by blast
next
  assume a: "0 < count P \<and> (\<forall>m<n. rejects rnd (radius P) (4 * m))
        \<and> (\<forall>k\<ge>4 * n. \<not> rejects rnd (radius P) k)"
  then have none: "generate rnd P ws n = None"
    using generate_rejected(1) by blast
  have "\<forall>k. \<exists>m. \<not> rejects rnd (radius P) (k + 4 * m)"
  proof
    fix k
    have "4 * n \<le> k + 4 * n" by simp
    then have "\<not> rejects rnd (radius P) (k + 4 * n)" using a by blast
    then show "\<exists>m. \<not> rejects rnd (radius P) (k + 4 * m)" ..
  qed
  then obtain n' g where g: "generate rnd P ws n' = Some g"
    using generate_terminates by blast
  have "n < n'"
  proof (rule ccontr)
    assume "\<not> n < n'"
    then have "n = n' + (n - n')" by simp
    moreover have "generate rnd P ws (n' + (n - n')) = Some g"
      using g by (auto simp: generate_def gen_loop_mono)
    ultimately show False using none by simp
  qed
  then have "n' = n + Suc (n' - Suc n)" by simp
  then show "\<exists>f g. generate rnd P ws (n + Suc f) = Some g"
    using g by metis
qed

lemma late_rnd_rejects: "m < 51 \<Longrightarrow> rejects late_rnd 1 (4 * m)"
  by (simp add: rejects_def candidate_def late_rnd_def Let_def)

lemma late_rnd_accepts: "204 \<le> k \<Longrightarrow> \<not> rejects late_rnd 1 k"
  by (simp add: rejects_def candidate_def late_rnd_def Let_def not_less)

theorem generate_no_iteration_cap_witness:
  "0 < count (red_blue 1)
   \<and> generate late_rnd (red_blue 1) [] 51 = None
   \<and> (\<exists>f g. generate late_rnd (red_blue 1) [] (51 + Suc f) = Some g
          \<and> length (positions g) = 3 \<and> length (colors g) = 3 \<and> length (randoms g) = 3
          \<and> length (scales g) = 1 \<and> length (wordIndexes g) = 1)"
proof -
  have 1: "0 < count (red_blue 1)" by (simp add: red_blue_def)
  have 2: "\<forall>m<51. rejects late_rnd (radius (red_blue 1)) (4 * m)"
    by (simp add: red_blue_def late_rnd_rejects)
  have 3: "\<forall>k\<ge>4 * 51. \<not> rejects late_rnd (radius (red_blue 1)) k"
    by (simp add: red_blue_def late_rnd_accepts)
  have none: "generate late_rnd (red_blue 1) [] 51 = None"
    using generate_no_iteration_cap [of late_rnd "red_blue 1" "[]" 51] 1 2 by blast
  obtain f g where g: "generate late_rnd (red_blue 1) [] (51 + Suc f) = Some g"
    using generate_no_iteration_cap [of late_rnd "red_blue 1" "[]" 51] 1 2 3 by blast
  have "length (positions g) = 3 * count (red_blue 1)
      \<and> length (colors g) = 3 * count (red_blue 1)
      \<and> length (randoms g) = 3 * count (red_blue 1)
      \<and> length (scales g) = count (red_blue 1)
      \<and> length (wordIndexes g) = count (red_blue 1)"
    using generate_no_iteration_cap [of late_rnd "red_blue 1" "[]" "51 + Suc f"] g by blast
  then have "length (positions g) = 3 \<and> length (colors g) = 3 \<and> length (randoms g) = 3
      \<and> length (scales g) = 1 \<and> length (wordIndexes g) = 1"
    by (simp add: red_blue_def)
  with 1 none g show ?thesis by blast
qed

text \<open>
  For one particle, fifty times the count is 50.  With a random source whose first 51
  candidates are rejected, the generation is still running after 50 passes and returns the
  complete arrays on pass 52: no cap has stopped it and nothing has failed.
\<close>

theorem generate_past_cap_counterexample:
  "generate late_rnd (red_blue 1) [] 50 = None
   \<and> generate late_rnd (red_blue 1) [] 52 =
       Some \<lparr>positions = [0, - (19 / 20), 0], colors = [1 / 40, 0, 39 / 40],
             randoms = [0, 0, 0], scales = [43 / 50], wordIndexes = [0]\<rparr>"
proof -
  have 1: "0 < count (red_blue 1)" by (simp add: red_blue_def)
  have r50: "\<forall>m<50. rejects late_rnd (radius (red_blue 1)) (4 * m)"
    by (simp add: red_blue_def late_rnd_rejects)
  have r51: "\<forall>m<51. rejects late_rnd (radius (red_blue 1)) (4 * m)"
    by (simp add: red_blue_def late_rnd_rejects)
  have "generate late_rnd (red_blue 1) [] (51 + 1)
      = map_option geometry.truncate
          (gen_loop late_rnd (red_blue 1) [] 1 (init_state\<lparr>calls := 4 * 51\<rparr>))"
    by (rule generate_rejected(2) [OF 1 r51])
  also have "\<dots> = Some \<lparr>positions = [0, - (19 / 20), 0], colors = [1 / 40, 0, 39 / 40],
             randoms = [0, 0, 0], scales = [43 / 50], wordIndexes = [0]\<rparr>"
    by (simp add: init_state_def red_blue_def loop_body_def late_rnd_def Let_def lerp_def
        geometry.truncate_def not_less)
  finally show ?thesis
    using generate_rejected(1) [OF 1 r50, of "[]"] by simp
qed


subsection \<open>Colour\<close>

lemma color_at_channel:
  assumes "i < 3"
  shows "channels (color_at P y) ! i
     = channels (colorBottom P) ! i
       + (channels (colorTop P) ! i - channels (colorBottom P) ! i) * ((y / radius P + 1) / 2)"
proof -
  obtain br bg bb where b: "colorBottom P = (br, bg, bb)" by (cases "colorBottom P")
  obtain tr tg tb where t: "colorTop P = (tr, tg, tb)" by (cases "colorTop P")
  have "i = 0 \<or> i = 1 \<or> i = 2" using assms by linarith
  then show ?thesis
    by (auto simp: color_at_def lerp_def channels_def b t)
qed

lemma color_at_mono:
  assumes "0 < radius P" and "y \<le> y'" and "i < 3"
  shows "(channels (colorBottom P) ! i \<le> channels (colorTop P) ! i
            \<longrightarrow> channels (color_at P y) ! i \<le> channels (color_at P y') ! i)
       \<and> (channels (colorTop P) ! i \<le> channels (colorBottom P) ! i
            \<longrightarrow> channels (color_at P y') ! i \<le> channels (color_at P y) ! i)"
proof -
  define d where "d = channels (colorTop P) ! i - channels (colorBottom P) ! i"
  have t: "(y / radius P + 1) / 2 \<le> (y' / radius P + 1) / 2"
    using assms(1,2) by (simp add: divide_right_mono)
  have up: "d * ((y / radius P + 1) / 2) \<le> d * ((y' / radius P + 1) / 2)" if "0 \<le> d"
    using t that by (rule mult_left_mono)
  have down: "d * ((y' / radius P + 1) / 2) \<le> d * ((y / radius P + 1) / 2)" if "d \<le> 0"
    using t that by (rule mult_left_mono_neg)
  show ?thesis
    unfolding color_at_channel [OF assms(3)] d_def [symmetric]
    using up down by (simp add: d_def)
qed

text \<open>
  C4 (as amended).  For a positive radius, the colour of every generated particle is
  \<open>color_at\<close> of its height \<open>y\<close>, the interpolation from the bottom to the top colour at
  \<open>t = (y / radius + 1) / 2\<close>.  It is the bottom colour at \<open>y = - radius\<close>, the midpoint
  of the two colours at \<open>y = 0\<close> and the top colour at \<open>y = radius\<close>, and as the signed
  height grows every channel moves monotonically from its bottom value towards its top value.
\<close>

theorem color_follows_height:
  assumes "0 < radius P"
  shows "(\<forall>n g j. generate rnd P ws n = Some g \<and> j < count P \<longrightarrow>
            color_of g j = color_at P (fst (snd (position_of g j))))
    \<and> color_at P (- radius P) = colorBottom P
    \<and> color_at P 0 = lerp (colorBottom P) (colorTop P) (1 / 2)
    \<and> color_at P (radius P) = colorTop P
    \<and> (\<forall>y y' i. y \<le> y' \<and> i < 3 \<longrightarrow>
          (channels (colorBottom P) ! i \<le> channels (colorTop P) ! i
             \<longrightarrow> channels (color_at P y) ! i \<le> channels (color_at P y') ! i)
        \<and> (channels (colorTop P) ! i \<le> channels (colorBottom P) ! i
             \<longrightarrow> channels (color_at P y') ! i \<le> channels (color_at P y) ! i))"
proof -
  have gen: "color_of g j = color_at P (fst (snd (position_of g j)))"
    if "generate rnd P ws n = Some g" and "j < count P" for n g j
  proof -
    have "particles (\<lambda>p c. c = color_at P (fst (snd p))) (count P) g (count P)"
      using that(1)
      by (intro generate_particles [where rnd = rnd and ws = ws and n = n]) simp_all
    then show ?thesis using that(2) by (simp add: particles_def)
  qed
  have ends: "color_at P (- radius P) = colorBottom P"
    "color_at P 0 = lerp (colorBottom P) (colorTop P) (1 / 2)"
    "color_at P (radius P) = colorTop P"
    using assms by (simp_all add: color_at_def lerp_def split: prod.splits)
  show ?thesis
    using gen ends color_at_mono [OF assms] by blast
qed

lemma generate_equator:
  "generate equator_rnd (red_blue 1) [] 1 =
     Some \<lparr>positions = [19 / 20, 0, 0], colors = [1 / 2, 0, 1 / 2], randoms = [0, 0, 0],
           scales = [2], wordIndexes = [0]\<rparr>"
  by (simp add: generate_def init_state_def red_blue_def loop_body_def equator_rnd_def
      Let_def lerp_def geometry.truncate_def)

theorem color_follows_height_witness:
  "0 < radius (red_blue 1)
   \<and> color_at (red_blue 1) (- 1) = (0, 0, 1)
   \<and> color_at (red_blue 1) 0 = (1 / 2, 0, 1 / 2)
   \<and> color_at (red_blue 1) 1 = (1, 0, 0)
   \<and> (\<exists>g. generate equator_rnd (red_blue 1) [] 1 = Some g
          \<and> color_of g 0 = color_at (red_blue 1) (fst (snd (position_of g 0))))"
proof -
  have 1: "0 < radius (red_blue 1)" by (simp add: red_blue_def)
  note inst = color_follows_height [OF 1, of equator_rnd "[]"]
  obtain g where g: "generate equator_rnd (red_blue 1) [] 1 = Some g"
    using generate_equator by blast
  have "0 < count (red_blue 1)" by (simp add: red_blue_def)
  with inst g have c: "color_of g 0 = color_at (red_blue 1) (fst (snd (position_of g 0)))"
    by blast
  from inst have "color_at (red_blue 1) (- 1) = (0, 0, 1)
      \<and> color_at (red_blue 1) 0 = (1 / 2, 0, 1 / 2)
      \<and> color_at (red_blue 1) 1 = (1, 0, 0)"
    by (simp add: red_blue_def lerp_def)
  with 1 g c show ?thesis by blast
qed

text \<open>
  A particle on the equator (\<open>y = 0\<close>) between a blue bottom and a red top is half red
  and half blue, not the bottom colour.
\<close>

theorem color_at_equator_counterexample:
  "map_option (\<lambda>g. (position_of g 0, color_of g 0)) (generate equator_rnd (red_blue 1) [] 1)
     = Some ((19 / 20, 0, 0), (1 / 2, 0, 1 / 2))
   \<and> colorBottom (red_blue 1) = (0, 0, 1)"
  using generate_equator by (simp add: position_of_def color_of_def red_blue_def)

text \<open>
  C8.  The radial jitter lets \<open>|y|\<close> exceed the radius, so \<open>normalizedY\<close> leaves
  \<open>[-1, 1]\<close> and \<open>t\<close> leaves \<open>[0, 1]\<close>.  With the draws \<open>v = 0.01\<close> and jitter
  \<open>0.9\<close> the height is \<open>-1.0192\<close> times the radius and \<open>t = -0.0096\<close>; between a
  white bottom and an amber top the green and blue channels written to the colour array
  are above 1.
\<close>

theorem color_above_one:
  "map_option colors (generate pole_rnd (amber_white 1) [] 1)
     = Some [1, 628 / 625, 631 / 625]"
  by (simp add: generate_def init_state_def amber_white_def loop_body_def pole_rnd_def
      Let_def lerp_def geometry.truncate_def not_less)

end
